theory Spec2Isabelle
  imports Main "HOL-Library.Multiset" "HOL-Library.Code_Target_Nat"
begin

section \<open>JavaScript strings\<close>

type_synonym jsstring = "nat list"

text \<open>
  The server of \<^verbatim>\<open>packages/webapi/server.js\<close> works on JavaScript strings, which are
  sequences of UTF-16 code units. A string is modelled as the list of its code units,
  each a number from 0 to 65535, so that \<open>length\<close> is \<^verbatim>\<open>.length\<close>.
\<close>

definition js :: "string \<Rightarrow> jsstring" where
  \<comment> \<open>The JavaScript string of an ASCII literal.\<close>
  "js s = map of_char s"

definition isWhiteSpace :: "nat \<Rightarrow> bool" where
  \<comment> \<open>The class \<^verbatim>\<open>\s\<close>: TAB, LF, VT, FF, CR, SPACE, NO-BREAK SPACE, the other
      space separators of Unicode, the line and paragraph separators and U+FEFF.\<close>
  "isWhiteSpace c =
     ((9 \<le> c \<and> c \<le> 13) \<or> c = 32 \<or> c = 160 \<or> c = 0x1680 \<or> (0x2000 \<le> c \<and> c \<le> 0x200A)
      \<or> c = 0x2028 \<or> c = 0x2029 \<or> c = 0x202F \<or> c = 0x205F \<or> c = 0x3000 \<or> c = 0xFEFF)"

function split_ws :: "jsstring \<Rightarrow> jsstring list" where
  "split_ws s =
     (if dropWhile (\<lambda>c. \<not> isWhiteSpace c) s = [] then [s]
      else takeWhile (\<lambda>c. \<not> isWhiteSpace c) s
             # split_ws (dropWhile isWhiteSpace (dropWhile (\<lambda>c. \<not> isWhiteSpace c) s)))"
  by pat_completeness auto
termination
proof (relation "measure length")
  show "wf (measure length)" by simp
next
  fix s :: jsstring
  assume ne: "dropWhile (\<lambda>c. \<not> isWhiteSpace c) s \<noteq> []"
  then obtain d r where dr: "dropWhile (\<lambda>c. \<not> isWhiteSpace c) s = d # r"
    by (cases "dropWhile (\<lambda>c. \<not> isWhiteSpace c) s") auto
  have "isWhiteSpace d"
    using hd_dropWhile [OF ne] dr by simp
  then have "length (dropWhile isWhiteSpace (d # r)) \<le> length r"
    by (simp add: length_dropWhile_le)
  moreover have "length (d # r) \<le> length s"
    using length_dropWhile_le [of "\<lambda>c. \<not> isWhiteSpace c" s] dr by simp
  ultimately show
    "(dropWhile isWhiteSpace (dropWhile (\<lambda>c. \<not> isWhiteSpace c) s), s) \<in> measure length"
    using dr by simp
qed

text \<open>
  \<open>split_ws s\<close> is \<^verbatim>\<open>s.split(/\s+/)\<close>: the pieces between the maximal runs of white
  space. White space at the start or at the end of \<open>s\<close> leaves an empty first or last
  piece, and the empty string gives one empty piece.
\<close>

definition join :: "jsstring \<Rightarrow> jsstring list \<Rightarrow> jsstring" where
  \<comment> \<open>\<^verbatim>\<open>xs.join(sep)\<close>\<close>
  "join sep xs = (case xs of [] \<Rightarrow> [] | x # rest \<Rightarrow> x @ concat (map (\<lambda>y. sep @ y) rest))"

definition tokens :: "jsstring \<Rightarrow> jsstring list" where
  \<comment> \<open>The whitespace-delimited tokens of a text: its maximal runs of characters that
      are not white space, in order. These are the non-empty pieces of the split.\<close>
  "tokens s = filter (\<lambda>w. w \<noteq> []) (split_ws s)"

subsection \<open>Case mappings\<close>

text \<open>
  Lower-casing and the case folding of regular expressions follow the case tables of
  Unicode. The model holds these tables for the code units below 0x180 (Basic Latin,
  Latin-1 Supplement, Latin Extended-A) and for U+0307, the combining dot that the
  lower case of U+0130 contains. What the engine does with any other code unit is not
  computed here: it is a parameter, the \<open>engine\<close>. \<open>lower_other s\<close> is
  \<^verbatim>\<open>s.toLowerCase()\<close> for a string \<open>s\<close> with a code unit outside the tables, and
  \<open>regexp_other pattern str\<close> is what \<^verbatim>\<open>str.match(new RegExp(pattern, "gi"))\<close> does
  (it throws, or it finds a number of matches) where the model below does not compute
  it. Every theorem holds for every engine.
\<close>

datatype error = Error (err_message: jsstring)

record engine =
  lower_other :: "jsstring \<Rightarrow> jsstring"
  regexp_other :: "jsstring \<Rightarrow> jsstring \<Rightarrow> error + nat"

definition tabulated :: "nat \<Rightarrow> bool" where
  "tabulated c = (c < 0x180 \<or> c = 0x307)"

definition toLowerCase_unit :: "nat \<Rightarrow> jsstring" where
  \<comment> \<open>The lower case of a tabulated code unit. A to Z and the capital letters of
      Latin-1 (0xC0 to 0xDE without the multiplication sign 0xD7) move up by 32. In
      Latin Extended-A the capital letter stands before its small letter; capital I
      with dot above (0x130) becomes i and the combining dot, two code units, and
      capital Y with diaeresis (0x178) becomes 0xFF.\<close>
  "toLowerCase_unit c =
     (if (65 \<le> c \<and> c \<le> 90) \<or> (192 \<le> c \<and> c \<le> 222 \<and> c \<noteq> 215) then [c + 32]
      else if c = 0x130 then [0x69, 0x307]
      else if c = 0x178 then [0xFF]
      else if ((0x100 \<le> c \<and> c \<le> 0x137) \<or> (0x14A \<le> c \<and> c \<le> 0x177)) \<and> even c then [c + 1]
      else if ((0x139 \<le> c \<and> c \<le> 0x148) \<or> (0x179 \<le> c \<and> c \<le> 0x17E)) \<and> odd c then [c + 1]
      else [c])"

definition toLowerCase :: "engine \<Rightarrow> jsstring \<Rightarrow> jsstring" where
  \<comment> \<open>\<^verbatim>\<open>s.toLowerCase()\<close>\<close>
  "toLowerCase eng s =
     (if list_all tabulated s then concat (map toLowerCase_unit s) else lower_other eng s)"

section \<open>PDF loading and chunking\<close>

datatype message = SystemMessage jsstring | HumanMessage jsstring | AIMessage jsstring

record env =
  js_engine :: engine
  pdf_file :: "(error + jsstring) option"
  chatModel_invoke :: "message list \<Rightarrow> error + jsstring"
  agent_processMessage :: "jsstring \<Rightarrow> jsstring \<Rightarrow> error + jsstring"

text \<open>
  What one request finds outside the process. \<open>pdf_file\<close> is the handbook:
  \<open>None\<close> when \<^verbatim>\<open>fs.existsSync(pdfPath)\<close> is false, \<open>Some (Inl e)\<close> when reading or
  parsing it throws \<open>e\<close>, \<open>Some (Inr text)\<close> when \<^verbatim>\<open>pdfParse\<close> gives \<open>text\<close>.
  \<open>chatModel_invoke\<close> is the Azure chat model (the content of its answer, or the error
  it throws) and \<open>agent_processMessage\<close> the agent service of \<^verbatim>\<open>agentService.js\<close> (its
  reply, or the error it throws). An exception is an \<open>error\<close> with its
  \<^verbatim>\<open>message\<close>. A chat message has the role \<^verbatim>\<open>system\<close>, \<^verbatim>\<open>user\<close> (a human
  message) or \<^verbatim>\<open>assistant\<close> (an AI message), and a content.
\<close>

record state =
  sessionMemories :: "jsstring \<rightharpoonup> message list"
  pdfText :: "jsstring option"
  pdfChunks :: "jsstring list"

text \<open>
  The three module-level variables. \<open>sessionMemories\<close> holds for each session id the
  messages of its \<^verbatim>\<open>BufferMemory\<close>; \<open>pdfText\<close> is \<open>None\<close> for \<^verbatim>\<open>null\<close>.
\<close>

definition initial_state :: state where
  "initial_state = \<lparr>sessionMemories = Map.empty, pdfText = None, pdfChunks = []\<rparr>"

definition CHUNK_SIZE :: nat where
  "CHUNK_SIZE = 800"

fun chunk_loop ::
  "jsstring list \<Rightarrow> jsstring \<Rightarrow> jsstring list \<Rightarrow> jsstring \<times> jsstring list" where
  "chunk_loop [] currentChunk chunks = (currentChunk, chunks)"
| "chunk_loop (word # words) currentChunk chunks =
     (if length (currentChunk @ js '' '' @ word) \<le> CHUNK_SIZE
      then chunk_loop words
             (currentChunk @ (if currentChunk \<noteq> [] then js '' '' else []) @ word) chunks
      else chunk_loop words word (chunks @ [currentChunk]))"

definition chunk_words :: "jsstring list \<Rightarrow> jsstring list \<Rightarrow> jsstring list" where
  \<comment> \<open>The loop over the words and the push of a non-empty last chunk.\<close>
  "chunk_words words chunks0 =
     (case chunk_loop words [] chunks0 of
        (currentChunk, chunks) \<Rightarrow> if currentChunk \<noteq> [] then chunks @ [currentChunk] else chunks)"

definition readPDF :: "env \<Rightarrow> state \<Rightarrow> (error + jsstring) \<times> state" where
  \<comment> \<open>The body of \<^verbatim>\<open>loadPDF\<close> after the test of the cache.\<close>
  "readPDF e s =
     (case pdf_file e of
        None \<Rightarrow> (Inr (js ''PDF not found.''), s)
      | Some (Inl err) \<Rightarrow> (Inl err, s)
      | Some (Inr text) \<Rightarrow>
          (Inr text, s\<lparr>pdfText := Some text,
                       pdfChunks := chunk_words (split_ws text) (pdfChunks s)\<rparr>))"

definition loadPDF :: "env \<Rightarrow> state \<Rightarrow> (error + jsstring) \<times> state" where
  \<comment> \<open>\<^verbatim>\<open>if (pdfText) return pdfText\<close>: \<^verbatim>\<open>null\<close> and the empty string are falsy.\<close>
  "loadPDF e s =
     (case pdfText s of
        None \<Rightarrow> readPDF e s
      | Some t \<Rightarrow> if t \<noteq> [] then (Inr t, s) else readPDF e s)"

section \<open>Retrieval\<close>

definition isStripped :: "nat \<Rightarrow> bool" where
  \<comment> \<open>The class of \<^verbatim>\<open>term.replace(/[.,?!;:()"']/g, "")\<close>.\<close>
  "isStripped c = (c \<in> set (js ''.,?!;:()'') \<or> c = 0x22 \<or> c = 0x27)"

definition queryTerms :: "engine \<Rightarrow> jsstring \<Rightarrow> jsstring list" where
  "queryTerms eng query =
     map (filter (\<lambda>c. \<not> isStripped c))
       (filter (\<lambda>t. 3 < length t) (split_ws (toLowerCase eng query)))"

definition isSyntaxCharacter :: "nat \<Rightarrow> bool" where
  \<comment> \<open>The characters with a meaning in a pattern: \<^verbatim>\<open>^ $ \ . * + ? ( ) [ ] { } |\<close>.\<close>
  "isSyntaxCharacter c = (c \<in> set (js ''^$.*+?()[]{}|'') \<or> c = 0x5C)"

definition Canonicalize :: "nat \<Rightarrow> nat" where
  \<comment> \<open>The case folding of the flag \<^verbatim>\<open>i\<close> for a tabulated code unit: the code unit of
      its upper case letter when that is one code unit, and is not an ASCII letter
      for a code unit from 128 on. Small y with diaeresis (0xFF) and the micro sign
      (0xB5) fold to 0x178 and 0x39C. Sharp s (0xDF) and 0x149 have no upper case of
      one code unit; dotless i (0x131) and long s (0x17F) have an ASCII one; these four
      stay as they are.\<close>
  "Canonicalize c =
     (if (97 \<le> c \<and> c \<le> 122) \<or> (224 \<le> c \<and> c \<le> 254 \<and> c \<noteq> 247) then c - 32
      else if c = 0xFF then 0x178
      else if c = 0xB5 then 0x39C
      else if c = 0x131 then c
      else if ((0x100 \<le> c \<and> c \<le> 0x137) \<or> (0x14A \<le> c \<and> c \<le> 0x177)) \<and> odd c then c - 1
      else if ((0x139 \<le> c \<and> c \<le> 0x148) \<or> (0x179 \<le> c \<and> c \<le> 0x17E)) \<and> even c then c - 1
      else c)"

fun alternatives :: "jsstring \<Rightarrow> jsstring list" where
  "alternatives [] = [[]]"
| "alternatives (c # cs) =
     (if c = of_char CHR ''|'' then [] # alternatives cs
      else (case alternatives cs of [] \<Rightarrow> [[c]] | a # as \<Rightarrow> (c # a) # as))"

definition matches_at :: "jsstring \<Rightarrow> jsstring \<Rightarrow> bool" where
  \<comment> \<open>The characters of \<open>lit\<close> stand at the start of \<open>str\<close>, case ignored.\<close>
  "matches_at lit str =
     (length lit \<le> length str \<and>
      map Canonicalize lit = map Canonicalize (take (length lit) str))"

fun match_here :: "jsstring list \<Rightarrow> jsstring \<Rightarrow> nat option" where
  "match_here [] str = None"
| "match_here (a # as) str = (if matches_at a str then Some (length a) else match_here as str)"

fun match_count :: "jsstring list \<Rightarrow> jsstring \<Rightarrow> nat" where
  "match_count alts [] = (case match_here alts [] of None \<Rightarrow> 0 | Some n \<Rightarrow> 1)"
| "match_count alts (c # rest) =
     (case match_here alts (c # rest) of
        None \<Rightarrow> match_count alts rest
      | Some n \<Rightarrow> Suc (match_count alts (drop (n - 1) rest)))"

text \<open>
  \<open>match_count alts str\<close> is the length of \<^verbatim>\<open>str.match(re)\<close> (0 for \<^verbatim>\<open>null\<close>) for a
  global, case-insensitive \<open>re\<close> whose pattern is the alternation of the literal
  strings \<open>alts\<close>. The scan starts at index 0. At an index the first alternative that
  stands there is the match; the scan goes on at the end of the match, or one
  character further when the match is empty (\<open>drop (n - 1) rest\<close> is both: the input
  from the end of a match of length \<open>n > 0\<close>, and \<open>rest\<close> for \<open>n = 0\<close>). Where no
  alternative stands the scan moves one character on. An empty match at the end of
  the input is counted, and is the last one.
\<close>

definition regexp_match_count :: "engine \<Rightarrow> jsstring \<Rightarrow> jsstring \<Rightarrow> error + nat" where
  \<comment> \<open>\<^verbatim>\<open>new RegExp(pattern, "gi")\<close> and the count of \<^verbatim>\<open>str.match(regex)\<close>. The pattern
      is the source of a regular expression. One made of ordinary characters and
      \<^verbatim>\<open>|\<close> is an alternation of literals, and the scan is computed when the case
      folding of \<open>str\<close> is tabulated, or when every alternative is empty and the scan
      compares no character. Anything else is left to the engine.\<close>
  "regexp_match_count eng pattern str =
     (if list_all (\<lambda>c. tabulated c \<and> (\<not> isSyntaxCharacter c \<or> c = of_char CHR ''|'')) pattern
         \<and> (list_all tabulated str \<or> list_all (\<lambda>a. a = []) (alternatives pattern))
      then Inr (match_count (alternatives pattern) str)
      else regexp_other eng pattern str)"

fun chunk_score :: "engine \<Rightarrow> jsstring \<Rightarrow> jsstring list \<Rightarrow> nat \<Rightarrow> error + nat" where
  "chunk_score eng chunkLower [] score = Inr score"
| "chunk_score eng chunkLower (t # ts) score =
     (case regexp_match_count eng t chunkLower of
        Inl err \<Rightarrow> Inl err
      | Inr n \<Rightarrow> chunk_score eng chunkLower ts (score + n))"

fun scoredChunks ::
  "engine \<Rightarrow> jsstring list \<Rightarrow> jsstring list \<Rightarrow> error + (jsstring \<times> nat) list" where
  "scoredChunks eng ts [] = Inr []"
| "scoredChunks eng ts (chunk # chunks) =
     (case chunk_score eng (toLowerCase eng chunk) ts 0 of
        Inl err \<Rightarrow> Inl err
      | Inr score \<Rightarrow>
          (case scoredChunks eng ts chunks of
             Inl err \<Rightarrow> Inl err
           | Inr items \<Rightarrow> Inr ((chunk, score) # items)))"

definition retrieveRelevantContent ::
  "engine \<Rightarrow> jsstring list \<Rightarrow> jsstring \<Rightarrow> error + jsstring list" where
  \<comment> \<open>\<^verbatim>\<open>sort((a, b) => b.score - a.score)\<close> is a stable sort by descending score,
      here the insertion sort \<open>sort_key\<close> on the negated score.\<close>
  "retrieveRelevantContent eng chunks query =
     (if length (queryTerms eng query) = 0 then Inr []
      else (case scoredChunks eng (queryTerms eng query) chunks of
              Inl err \<Rightarrow> Inl err
            | Inr items \<Rightarrow>
                Inr (map fst (take 3 (sort_key (\<lambda>item. - int (snd item))
                                        (filter (\<lambda>item. 0 < snd item) items))))))"

definition literal_count :: "jsstring \<Rightarrow> jsstring \<Rightarrow> nat" where
  \<comment> \<open>The matches of a token read as a literal pattern: every character of the
      token stands for itself, under the same global scan.\<close>
  "literal_count token str = match_count [token] str"

section \<open>The chat endpoint\<close>

datatype jsvalue = JUndefined | JNull | JBool bool | JNumber int | JString jsstring | JObject

text \<open>
  A field of the JSON body: absent (\<open>JUndefined\<close>), \<^verbatim>\<open>null\<close>, a boolean, a number, a
  string, or an array or object. The handler only tests a number against zero, so a
  number stands here as an integer that is zero exactly when the number is.
\<close>

definition truthy :: "jsvalue \<Rightarrow> bool" where
  "truthy v =
     (case v of
        JUndefined \<Rightarrow> False
      | JNull \<Rightarrow> False
      | JBool b \<Rightarrow> b
      | JNumber n \<Rightarrow> n \<noteq> 0
      | JString s \<Rightarrow> s \<noteq> []
      | JObject \<Rightarrow> True)"

record body =
  body_message :: jsvalue
  body_useRAG :: jsvalue
  body_sessionId :: "jsstring option"
  body_mode :: "jsstring option"

text \<open>
  The object \<^verbatim>\<open>req.body\<close>. The fields \<^verbatim>\<open>sessionId\<close> and \<^verbatim>\<open>mode\<close> are strings when
  they are present. A request is a \<open>body option\<close>: \<open>None\<close> when \<^verbatim>\<open>req.body\<close> is
  \<^verbatim>\<open>undefined\<close>, which is what \<^verbatim>\<open>express.json()\<close> of Express 5 leaves for a request
  without a JSON body (Express 4 leaves the empty object, a \<open>body\<close> with every field
  absent).
\<close>

datatype response =
  Reply jsstring "jsstring list"
| InvalidInput
| ModelCallFailed jsstring

text \<open>
  The three answers of the endpoint: status 200 with \<^verbatim>\<open>{reply, sources}\<close>, status 400
  with \<^verbatim>\<open>{error: "Invalid or missing 'message'"}\<close>, and status 500 with
  \<^verbatim>\<open>{error: "Model call failed", message: err.message, reply: ...}\<close>.
\<close>

definition Object_prototype_properties :: "jsstring list" where
  \<comment> \<open>The keys every object literal inherits: \<^verbatim>\<open>sessionMemories[k]\<close> is a function or
      an object for them, although no session was stored under \<open>k\<close>.\<close>
  "Object_prototype_properties =
     map js
       [''constructor'', ''__proto__'', ''hasOwnProperty'', ''isPrototypeOf'',
        ''propertyIsEnumerable'', ''toLocaleString'', ''toString'', ''valueOf'',
        ''__defineGetter__'', ''__defineSetter__'', ''__lookupGetter__'', ''__lookupSetter__'']"

definition getSessionMemory :: "jsstring \<Rightarrow> state \<Rightarrow> state" where
  \<comment> \<open>A new, empty memory is stored when \<^verbatim>\<open>sessionMemories[sessionId]\<close> is falsy.\<close>
  "getSessionMemory sessionId s =
     (if sessionId \<in> set Object_prototype_properties then s
      else (case sessionMemories s sessionId of
              None \<Rightarrow> s\<lparr>sessionMemories := (sessionMemories s)(sessionId \<mapsto> [])\<rparr>
            | Some h \<Rightarrow> s))"

definition loadMemoryVariables :: "jsstring \<Rightarrow> state \<Rightarrow> error + message list" where
  \<comment> \<open>\<^verbatim>\<open>memory.loadMemoryVariables({})\<close> and its \<^verbatim>\<open>chat_history || []\<close>. An inherited
      property is no memory: the call throws a TypeError.\<close>
  "loadMemoryVariables sessionId s =
     (if sessionId \<in> set Object_prototype_properties
      then Inl (Error (js ''memory.loadMemoryVariables is not a function''))
      else (case sessionMemories s sessionId of None \<Rightarrow> Inr [] | Some h \<Rightarrow> Inr h))"

definition saveContext :: "jsstring \<Rightarrow> jsstring \<Rightarrow> jsstring \<Rightarrow> state \<Rightarrow> state" where
  \<comment> \<open>\<^verbatim>\<open>memory.saveContext({input}, {output})\<close>: the human message, then the AI message.\<close>
  "saveContext sessionId input output s =
     s\<lparr>sessionMemories := (sessionMemories s)
          (sessionId \<mapsto> (case sessionMemories s sessionId of None \<Rightarrow> [] | Some h \<Rightarrow> h)
                           @ [HumanMessage input, AIMessage output])\<rparr>"

definition history :: "state \<Rightarrow> jsstring \<Rightarrow> message list" where
  \<comment> \<open>The history of a session: empty as long as nothing was saved in it.\<close>
  "history s sessionId = (case sessionMemories s sessionId of None \<Rightarrow> [] | Some h \<Rightarrow> h)"

definition excerptsPrompt :: "jsstring list \<Rightarrow> jsstring" where
  "excerptsPrompt sources =
     js ''You are a helpful assistant for Contoso Electronics. You must ONLY use the information provided below to answer.''
     @ [0x0A, 0x0A] @ js ''--- EMPLOYEE HANDBOOK EXCERPTS ---'' @ [0x0A]
     @ join [0x0A, 0x0A] sources
     @ [0x0A] @ js ''--- END OF EXCERPTS ---''"

definition refusalPrompt :: jsstring where
  "refusalPrompt =
     js ''You are a helpful assistant for Contoso Electronics. The excerpts do not contain relevant information for this question. Reply politely: ''
     @ [0x22] @ js ''I'' @ [0x27] @ js ''m sorry, I don'' @ [0x27]
     @ js ''t know. The employee handbook does not contain information about that.'' @ [0x22]"

definition genericPrompt :: jsstring where
  "genericPrompt =
     js ''You are a helpful and knowledgeable assistant. Answer the user'' @ [0x27]
     @ js ''s questions concisely and informatively.''"

definition systemMessage :: "bool \<Rightarrow> jsstring list \<Rightarrow> message" where
  "systemMessage useRAG sources =
     (if useRAG
      then SystemMessage (if 0 < length sources then excerptsPrompt sources else refusalPrompt)
      else SystemMessage genericPrompt)"

definition rag ::
  "env \<Rightarrow> bool \<Rightarrow> jsstring \<Rightarrow> state \<Rightarrow> (error + jsstring list) \<times> state" where
  \<comment> \<open>\<^verbatim>\<open>let sources = []; if (useRAG) { await loadPDF(); sources = ... }\<close>\<close>
  "rag e useRAG userMessage s =
     (if useRAG
      then (case loadPDF e s of
              (Inl err, s') \<Rightarrow> (Inl err, s')
            | (Inr text, s') \<Rightarrow>
                (retrieveRelevantContent (js_engine e) (pdfChunks s') userMessage, s'))
      else (Inr [], s))"

definition respond ::
  "env \<Rightarrow> jsstring \<Rightarrow> bool \<Rightarrow> jsstring \<Rightarrow> jsstring \<Rightarrow> message list \<Rightarrow> jsstring list \<Rightarrow> state
     \<Rightarrow> (error + response) \<times> state" where
  \<comment> \<open>The handler from the agent branch on.\<close>
  "respond e userMessage useRAG sessionId mode chat_history sources s =
     (if mode = js ''agent''
      then (case agent_processMessage e sessionId userMessage of
              Inl err \<Rightarrow> (Inl err, s)
            | Inr reply \<Rightarrow> (Inr (Reply reply []), s))
      else (case chatModel_invoke e
                   (systemMessage useRAG sources # chat_history @ [HumanMessage userMessage]) of
              Inl err \<Rightarrow> (Inl err, s)
            | Inr content \<Rightarrow>
                (Inr (Reply content sources), saveContext sessionId userMessage content s)))"

definition useRAG_of :: "body \<Rightarrow> bool" where
  \<comment> \<open>\<^verbatim>\<open>req.body.useRAG ?? true\<close>, as the conditions test it.\<close>
  "useRAG_of b =
     (case body_useRAG b of JUndefined \<Rightarrow> True | JNull \<Rightarrow> True | v \<Rightarrow> truthy v)"

definition sessionId_of :: "body \<Rightarrow> jsstring" where
  \<comment> \<open>\<^verbatim>\<open>req.body.sessionId || "default"\<close>\<close>
  "sessionId_of b =
     (case body_sessionId b of
        None \<Rightarrow> js ''default''
      | Some i \<Rightarrow> if i \<noteq> [] then i else js ''default'')"

definition mode_of :: "body \<Rightarrow> jsstring" where
  \<comment> \<open>\<^verbatim>\<open>req.body.mode || "basic"\<close>\<close>
  "mode_of b =
     (case body_mode b of
        None \<Rightarrow> js ''basic''
      | Some m \<Rightarrow> if m \<noteq> [] then m else js ''basic'')"

definition undefined_body_error :: error where
  \<comment> \<open>The TypeError of \<^verbatim>\<open>req.body.message\<close> when \<^verbatim>\<open>req.body\<close> is \<^verbatim>\<open>undefined\<close>.\<close>
  "undefined_body_error =
     Error (js ''Cannot read properties of undefined (reading '' @ [0x27] @ js ''message''
            @ [0x27] @ js '')'')"

definition chat_try :: "env \<Rightarrow> body option \<Rightarrow> state \<Rightarrow> (error + response) \<times> state" where
  \<comment> \<open>The \<^verbatim>\<open>try\<close> block: \<open>Inl err\<close> when it throws \<open>err\<close>. Its first statement reads
      \<^verbatim>\<open>req.body.message\<close>.\<close>
  "chat_try e req s =
     (case req of
        None \<Rightarrow> (Inl undefined_body_error, s)
      | Some b \<Rightarrow>
          (case body_message b of
             JString userMessage \<Rightarrow>
               if userMessage = [] then (Inr InvalidInput, s)
               else (case loadMemoryVariables (sessionId_of b)
                            (getSessionMemory (sessionId_of b) s) of
                       Inl err \<Rightarrow> (Inl err, getSessionMemory (sessionId_of b) s)
                     | Inr chat_history \<Rightarrow>
                         (case rag e (useRAG_of b) userMessage
                                 (getSessionMemory (sessionId_of b) s) of
                            (Inl err, s') \<Rightarrow> (Inl err, s')
                          | (Inr sources, s') \<Rightarrow>
                              respond e userMessage (useRAG_of b) (sessionId_of b) (mode_of b)
                                chat_history sources s'))
           | _ \<Rightarrow> (Inr InvalidInput, s)))"

definition chat :: "env \<Rightarrow> body option \<Rightarrow> state \<Rightarrow> response \<times> state" where
  \<comment> \<open>\<^verbatim>\<open>app.post("/chat", ...)\<close>: the \<^verbatim>\<open>catch\<close> turns an exception into status 500.\<close>
  "chat e req s =
     (case chat_try e req s of
        (Inl err, s') \<Rightarrow> (ModelCallFailed (err_message err), s')
      | (Inr r, s') \<Rightarrow> (r, s'))"

fun chat_all :: "(env \<times> body option) list \<Rightarrow> state \<Rightarrow> response list \<times> state" where
  "chat_all [] s = ([], s)"
| "chat_all ((e, req) # rest) s =
     (case chat e req s of
        (r, s') \<Rightarrow> (case chat_all rest s' of (rs, s'') \<Rightarrow> (r # rs, s'')))"

text \<open>
  \<open>chat_all\<close> serves a sequence of requests one after the other, each with what it
  finds outside the process at its time.
\<close>

definition turn :: "jsstring \<Rightarrow> body option \<Rightarrow> response \<Rightarrow> message list" where
  \<comment> \<open>What a request adds to the history of the session \<open>sid\<close>, read from its
      answer: the pair of the user's message and the reply when the request was for
      \<open>sid\<close>, was not in agent mode and was answered with status 200; nothing
      otherwise.\<close>
  "turn sid req r =
     (case r of
        Reply reply sources \<Rightarrow>
          (case req of
             None \<Rightarrow> []
           | Some b \<Rightarrow>
               (case body_message b of
                  JString userMessage \<Rightarrow>
                    if mode_of b \<noteq> js ''agent'' \<and> sessionId_of b = sid
                    then [HumanMessage userMessage, AIMessage reply] else []
                | _ \<Rightarrow> []))
      | _ \<Rightarrow> [])"

section \<open>Example inputs\<close>

definition handbook :: jsstring where
  "handbook = js ''Vacation policy: employees accrue 2 days/month.''"

definition example_engine :: engine where
  \<comment> \<open>The strings of the examples have tabulated code units only, and no pattern of
      the examples has a syntax character other than \<^verbatim>\<open>|\<close>: nothing reaches these two
      functions.\<close>
  "example_engine =
     \<lparr>lower_other = (\<lambda>s. s),
      regexp_other = (\<lambda>pattern str. Inl (Error (js ''Invalid regular expression'')))\<rparr>"

definition example_env :: env where
  \<comment> \<open>A handbook of one sentence, a chat model that answers by the system prompt it
      is given, and an agent.\<close>
  "example_env =
     \<lparr>js_engine = example_engine,
      pdf_file = Some (Inr handbook),
      chatModel_invoke =
        (\<lambda>messages.
           case messages of
             SystemMessage p # rest \<Rightarrow>
               if p = refusalPrompt then Inr (js ''I do not know.'')
               else if p = genericPrompt then Inr (js ''Hello.'')
               else Inr (js ''Two days per month.'')
           | _ \<Rightarrow> Inl (Error (js ''No system message''))),
      agent_processMessage = (\<lambda>sessionId userMessage. Inr (js ''Agent reply''))\<rparr>"

definition example_body :: body where
  "example_body =
     \<lparr>body_message = JString (js ''What is the vacation policy?''),
      body_useRAG = JUndefined, body_sessionId = None, body_mode = None\<rparr>"

definition agent_body :: body where
  "agent_body = example_body\<lparr>body_mode := Some (js ''agent'')\<rparr>"

definition example_chunks :: "jsstring list" where
  "example_chunks = map js [''plan'', ''no match'', ''Plan plan'', ''planning'', ''plan'']"

definition example_session :: "(env \<times> body option) list" where
  \<comment> \<open>A question, the same question in agent mode, the question while the chat model
      is down, a request without a body, and a second question.\<close>
  "example_session =
     [(example_env, Some example_body),
      (example_env, Some agent_body),
      (example_env\<lparr>chatModel_invoke := (\<lambda>messages. Inl (Error (js ''Service unavailable'')))\<rparr>,
       Some example_body),
      (example_env, None),
      (example_env, Some (example_body\<lparr>body_message := JString (js ''Thanks for the help'')\<rparr>))]"

definition dotted_I_word :: jsstring where
  \<comment> \<open>The three code units a, capital I with dot above (U+0130), b.\<close>
  "dotted_I_word = [0x61, 0x130, 0x62]"

section \<open>Splitting and tokens\<close>

declare split_ws.simps [simp del]

lemma split_ws_Nil:
  assumes "dropWhile (\<lambda>c. \<not> isWhiteSpace c) s = []"
  shows "split_ws s = [s]"
  by (subst split_ws.simps) (simp add: assms)

lemma split_ws_Cons:
  assumes "dropWhile (\<lambda>c. \<not> isWhiteSpace c) s \<noteq> []"
  shows "split_ws s = takeWhile (\<lambda>c. \<not> isWhiteSpace c) s
                # split_ws (dropWhile isWhiteSpace (dropWhile (\<lambda>c. \<not> isWhiteSpace c) s))"
  by (subst split_ws.simps) (simp only: assms if_False)

lemma split_ws_no_space:
  assumes "\<forall>c\<in>set w. \<not> isWhiteSpace c"
  shows "split_ws w = [w]"
proof (rule split_ws_Nil)
  show "dropWhile (\<lambda>c. \<not> isWhiteSpace c) w = []"
    using assms by simp
qed

lemma split_ws_word_space:
  assumes "\<forall>c\<in>set w. \<not> isWhiteSpace c" and "isWhiteSpace d"
  shows "split_ws (w @ d # v) = w # split_ws (dropWhile isWhiteSpace v)"
proof -
  have d: "dropWhile (\<lambda>c. \<not> isWhiteSpace c) (w @ d # v) = d # v"
    using assms by (simp add: dropWhile_append3)
  have t: "takeWhile (\<lambda>c. \<not> isWhiteSpace c) (w @ d # v) = w"
    using assms by (simp add: takeWhile_tail)
  have "dropWhile (\<lambda>c. \<not> isWhiteSpace c) (w @ d # v) \<noteq> []"
    by (simp only: d) simp
  then have "split_ws (w @ d # v) = takeWhile (\<lambda>c. \<not> isWhiteSpace c) (w @ d # v)
      # split_ws (dropWhile isWhiteSpace (dropWhile (\<lambda>c. \<not> isWhiteSpace c) (w @ d # v)))"
    by (rule split_ws_Cons)
  then show ?thesis
    using assms(2) by (simp only: d t dropWhile.simps if_True)
qed

lemma split_ws_pieces:
  "w \<in> set (split_ws s) \<Longrightarrow> c \<in> set w \<Longrightarrow> \<not> isWhiteSpace c"
proof (induction s rule: split_ws.induct)
  case (1 s)
  show ?case
  proof (cases "dropWhile (\<lambda>c. \<not> isWhiteSpace c) s = []")
    case True
    then have "w = s"
      using "1.prems"(1) by (simp only: split_ws_Nil) simp
    then show ?thesis
      using True "1.prems"(2) by (simp add: dropWhile_eq_Nil_conv)
  next
    case False
    from "1.prems"(1) have "w = takeWhile (\<lambda>c. \<not> isWhiteSpace c) s
          \<or> w \<in> set (split_ws (dropWhile isWhiteSpace (dropWhile (\<lambda>c. \<not> isWhiteSpace c) s)))"
      by (simp only: split_ws_Cons [OF False]) simp
    then show ?thesis
    proof
      assume "w = takeWhile (\<lambda>c. \<not> isWhiteSpace c) s"
      then show ?thesis
        using "1.prems"(2) by (auto dest: set_takeWhileD)
    next
      assume "w \<in> set (split_ws (dropWhile isWhiteSpace (dropWhile (\<lambda>c. \<not> isWhiteSpace c) s)))"
      then show ?thesis
        using "1.IH" False "1.prems"(2) by blast
    qed
  qed
qed

lemma tokens_Nil: "tokens [] = []"
  by (simp add: tokens_def split_ws_no_space)

lemma tokens_no_space:
  "\<forall>c\<in>set w. \<not> isWhiteSpace c \<Longrightarrow> tokens w = (if w = [] then [] else [w])"
  by (simp add: tokens_def split_ws_no_space)

lemma tokens_dropWhile: "tokens (dropWhile isWhiteSpace v) = tokens v"
proof (cases v)
  case Nil
  then show ?thesis by simp
next
  case (Cons d r)
  show ?thesis
  proof (cases "isWhiteSpace d")
    case True
    have "split_ws (d # r) = [] # split_ws (dropWhile isWhiteSpace r)"
      using split_ws_word_space [of "[]" d r] True by simp
    with True Cons show ?thesis
      by (simp add: tokens_def)
  next
    case False
    with Cons show ?thesis by simp
  qed
qed

lemma tokens_word_space:
  assumes "\<forall>c\<in>set w. \<not> isWhiteSpace c" and "isWhiteSpace d"
  shows "tokens (w @ d # v) = tokens w @ tokens v"
proof -
  have "tokens (w @ d # v) = (if w = [] then [] else [w]) @ tokens (dropWhile isWhiteSpace v)"
    using split_ws_word_space [OF assms] by (simp add: tokens_def)
  then show ?thesis
    using assms(1) by (simp add: tokens_dropWhile tokens_no_space)
qed

lemma tokens_append_space:
  assumes "isWhiteSpace d"
  shows "tokens (a @ d # b) = tokens a @ tokens b"
proof (induction a rule: length_induct)
  case (1 a)
  define w where "w = takeWhile (\<lambda>c. \<not> isWhiteSpace c) a"
  define r where "r = dropWhile (\<lambda>c. \<not> isWhiteSpace c) a"
  have w: "\<forall>c\<in>set w. \<not> isWhiteSpace c"
    unfolding w_def by (auto dest: set_takeWhileD)
  have a: "a = w @ r"
    unfolding w_def r_def by simp
  show ?case
  proof (cases r)
    case Nil
    then have "a = w" using a by simp
    then show ?thesis
      using tokens_word_space [OF w assms, of b] by simp
  next
    case (Cons d' r')
    have "\<not> \<not> isWhiteSpace (hd (dropWhile (\<lambda>c. \<not> isWhiteSpace c) a))"
      by (rule hd_dropWhile) (use Cons r_def in simp)
    then have d': "isWhiteSpace d'"
      using Cons r_def by simp
    have split: "a = w @ d' # r'"
      using a Cons by simp
    then have "length r' < length a"
      by simp
    then have IH: "tokens (r' @ d # b) = tokens r' @ tokens b"
      using "1.IH" by simp
    have "tokens (a @ d # b) = tokens (w @ d' # (r' @ d # b))"
      by (simp add: split)
    also have "\<dots> = tokens w @ tokens (r' @ d # b)"
      by (rule tokens_word_space [OF w d'])
    also have "\<dots> = tokens w @ tokens r' @ tokens b"
      by (simp add: IH)
    also have "\<dots> = tokens (w @ d' # r') @ tokens b"
      by (simp add: tokens_word_space [OF w d'])
    finally show ?thesis
      by (simp add: split)
  qed
qed

lemma js_space [simp]: "js '' '' = [32]"
  by (simp add: js_def)

lemma isWhiteSpace_space: "isWhiteSpace 32"
  by (simp add: isWhiteSpace_def)

lemma tokens_join_aux:
  assumes "isWhiteSpace d"
  shows "tokens (x @ concat (map ((#) d) rest)) = tokens x @ concat (map tokens rest)"
proof (induction rest arbitrary: x)
  case Nil
  then show ?case by simp
next
  case (Cons y ys)
  have "tokens (x @ d # (y @ concat (map ((#) d) ys)))
          = tokens x @ tokens (y @ concat (map ((#) d) ys))"
    by (rule tokens_append_space [OF assms])
  then show ?case
    using Cons.IH [of y] by simp
qed

lemma tokens_join:
  "tokens (join (js '' '') xs) = concat (map tokens xs)"
proof -
  have sep: "(@) [32::nat] = (#) 32"
    by (rule ext) simp
  show ?thesis
    using tokens_join_aux [OF isWhiteSpace_space]
    by (cases xs) (simp_all add: join_def tokens_Nil sep)
qed

section \<open>The chunks of a document\<close>

lemma chunk_loop_tokens:
  "chunk_loop words cur chunks = (cur', chunks') \<Longrightarrow>
     concat (map tokens chunks') @ tokens cur'
       = concat (map tokens chunks) @ tokens cur @ concat (map tokens words)"
proof (induction words arbitrary: cur chunks)
  case Nil
  then show ?case by simp
next
  case (Cons word words)
  show ?case
  proof (cases "length (cur @ js '' '' @ word) \<le> CHUNK_SIZE")
    case True
    have "tokens (cur @ (if cur \<noteq> [] then js '' '' else []) @ word) = tokens cur @ tokens word"
      using tokens_append_space [OF isWhiteSpace_space, of cur word]
      by (simp add: tokens_Nil)
    moreover have "chunk_loop words (cur @ (if cur \<noteq> [] then js '' '' else []) @ word) chunks
        = (cur', chunks')"
      using Cons.prems True by simp
    ultimately show ?thesis
      using Cons.IH by fastforce
  next
    case False
    then have "chunk_loop words word (chunks @ [cur]) = (cur', chunks')"
      using Cons.prems by simp
    then show ?thesis
      using Cons.IH by fastforce
  qed
qed

lemma chunk_words_tokens:
  "concat (map tokens (chunk_words words chunks0))
     = concat (map tokens chunks0) @ concat (map tokens words)"
proof -
  obtain cur' chunks' where loop: "chunk_loop words [] chunks0 = (cur', chunks')"
    by (cases "chunk_loop words [] chunks0")
  have "concat (map tokens (chunk_words words chunks0)) = concat (map tokens chunks') @ tokens cur'"
    using loop by (simp add: chunk_words_def tokens_Nil)
  then show ?thesis
    using chunk_loop_tokens [OF loop] by (simp add: tokens_Nil)
qed

lemma concat_tokens_pieces:
  "\<forall>w\<in>set ws. \<forall>c\<in>set w. \<not> isWhiteSpace c \<Longrightarrow>
     concat (map tokens ws) = filter (\<lambda>w. w \<noteq> []) ws"
  by (induction ws) (simp_all add: tokens_no_space)

lemma concat_tokens_split_ws: "concat (map tokens (split_ws text)) = tokens text"
proof -
  have "\<forall>w\<in>set (split_ws text). \<forall>c\<in>set w. \<not> isWhiteSpace c"
    using split_ws_pieces by blast
  then show ?thesis
    by (simp add: concat_tokens_pieces tokens_def)
qed

lemma loadPDF_fresh:
  assumes "pdf_file e = Some (Inr text)" and "pdfText s = None"
  shows "loadPDF e s = (Inr text, s\<lparr>pdfText := Some text,
            pdfChunks := chunk_words (split_ws text) (pdfChunks s)\<rparr>)"
  using assms by (simp add: loadPDF_def readPDF_def)

lemma chunk_loop_bound:
  assumes "chunk_loop words cur chunks = (cur', chunks')"
    and "set words \<subseteq> W"
    and "\<forall>c\<in>set chunks. length c \<le> CHUNK_SIZE \<or> c \<in> W"
    and "length cur \<le> CHUNK_SIZE \<or> cur \<in> W"
  shows "(\<forall>c\<in>set chunks'. length c \<le> CHUNK_SIZE \<or> c \<in> W)
           \<and> (length cur' \<le> CHUNK_SIZE \<or> cur' \<in> W)"
  using assms
proof (induction words arbitrary: cur chunks)
  case Nil
  then show ?case by simp
next
  case (Cons word words)
  show ?case
  proof (cases "length (cur @ js '' '' @ word) \<le> CHUNK_SIZE")
    case True
    then have "chunk_loop words (cur @ (if cur \<noteq> [] then js '' '' else []) @ word) chunks
        = (cur', chunks')"
      using Cons.prems(1) by simp
    moreover have "length (cur @ (if cur \<noteq> [] then js '' '' else []) @ word) \<le> CHUNK_SIZE"
      using True by simp
    ultimately show ?thesis
      using Cons.IH [of "cur @ (if cur \<noteq> [] then js '' '' else []) @ word" chunks] Cons.prems(2,3)
      by simp
  next
    case False
    then have "chunk_loop words word (chunks @ [cur]) = (cur', chunks')"
      using Cons.prems(1) by simp
    moreover have "\<forall>c\<in>set (chunks @ [cur]). length c \<le> CHUNK_SIZE \<or> c \<in> W"
      using Cons.prems(3,4) by auto
    ultimately show ?thesis
      using Cons.IH [of word "chunks @ [cur]"] Cons.prems(2) by simp
  qed
qed

lemma chunk_loop_oversized:
  assumes "chunk_loop words cur chunks = (cur', chunks')"
    and "CHUNK_SIZE < length w"
    and "w \<in> set words \<or> w = cur \<or> w \<in> set chunks"
  shows "w = cur' \<or> w \<in> set chunks'"
  using assms
proof (induction words arbitrary: cur chunks)
  case Nil
  then show ?case by simp
next
  case (Cons word words)
  show ?case
  proof (cases "length (cur @ js '' '' @ word) \<le> CHUNK_SIZE")
    case True
    then have loop: "chunk_loop words (cur @ (if cur \<noteq> [] then js '' '' else []) @ word) chunks
        = (cur', chunks')"
      using Cons.prems(1) by simp
    have "w \<noteq> word" and "w \<noteq> cur"
      using True Cons.prems(2) by auto
    then have "w \<in> set words \<or> w \<in> set chunks"
      using Cons.prems(3) by auto
    then show ?thesis
      using Cons.IH [OF loop Cons.prems(2)] by blast
  next
    case False
    then have loop: "chunk_loop words word (chunks @ [cur]) = (cur', chunks')"
      using Cons.prems(1) by simp
    have "w \<in> set words \<or> w = word \<or> w \<in> set (chunks @ [cur])"
      using Cons.prems(3) by auto
    then show ?thesis
      by (rule Cons.IH [OF loop Cons.prems(2)])
  qed
qed

lemma chunk_words_bound:
  assumes "c \<in> set (chunk_words words [])"
  shows "length c \<le> CHUNK_SIZE \<or> c \<in> set words"
proof -
  obtain cur' chunks' where loop: "chunk_loop words [] [] = (cur', chunks')"
    by (cases "chunk_loop words [] []")
  have "(\<forall>c\<in>set chunks'. length c \<le> CHUNK_SIZE \<or> c \<in> set words)
           \<and> (length cur' \<le> CHUNK_SIZE \<or> cur' \<in> set words)"
    by (rule chunk_loop_bound [OF loop]) simp_all
  moreover have "c \<in> set chunks' \<or> c = cur'"
    using assms loop by (auto simp: chunk_words_def split: if_splits)
  ultimately show ?thesis by blast
qed

lemma chunk_words_oversized:
  assumes "w \<in> set words" and "CHUNK_SIZE < length w"
  shows "w \<in> set (chunk_words words [])"
proof -
  obtain cur' chunks' where loop: "chunk_loop words [] [] = (cur', chunks')"
    by (cases "chunk_loop words [] []")
  have "w = cur' \<or> w \<in> set chunks'"
    using chunk_loop_oversized [OF loop assms(2)] assms(1) by simp
  moreover have "w \<noteq> []"
    using assms(2) by auto
  ultimately show ?thesis
    using loop by (auto simp: chunk_words_def)
qed

section \<open>Lower case and the terms of a query\<close>

lemma toLowerCase_unit_single:
  "c \<noteq> 0x130 \<Longrightarrow> toLowerCase_unit c = [hd (toLowerCase_unit c)]"
  by (simp add: toLowerCase_unit_def)

lemma isWhiteSpace_toLowerCase_unit: "isWhiteSpace (hd (toLowerCase_unit c)) = isWhiteSpace c"
  by (auto simp add: isWhiteSpace_def toLowerCase_unit_def)

lemma toLowerCase_map:
  assumes "list_all tabulated s" and "0x130 \<notin> set s"
  shows "toLowerCase eng s = map (\<lambda>c. hd (toLowerCase_unit c)) s"
proof -
  have "concat (map toLowerCase_unit s) = map (\<lambda>c. hd (toLowerCase_unit c)) s"
    using assms(2)
  proof (induction s)
    case Nil
    then show ?case by simp
  next
    case (Cons c s)
    then have "c \<noteq> 0x130" by auto
    then have "toLowerCase_unit c = [hd (toLowerCase_unit c)]"
      by (rule toLowerCase_unit_single)
    then have "concat (map toLowerCase_unit (c # s))
        = hd (toLowerCase_unit c) # concat (map toLowerCase_unit s)"
      by (simp del: toLowerCase_unit_single)
    then show ?case
      using Cons by simp
  qed
  then show ?thesis
    using assms(1) by (simp add: toLowerCase_def)
qed

lemma length_toLowerCase:
  assumes "list_all tabulated s" and "0x130 \<notin> set s"
  shows "length (toLowerCase eng s) = length s"
  by (simp add: toLowerCase_map [OF assms])

lemma split_ws_map:
  assumes "\<And>c. isWhiteSpace (f c) = isWhiteSpace c"
  shows "split_ws (map f s) = map (map f) (split_ws s)"
proof (induction s rule: split_ws.induct)
  case (1 s)
  have tw: "takeWhile (\<lambda>c. \<not> isWhiteSpace c) (map f r) = map f (takeWhile (\<lambda>c. \<not> isWhiteSpace c) r)"
    for r
    by (simp add: takeWhile_map comp_def assms)
  have dw: "dropWhile (\<lambda>c. \<not> isWhiteSpace c) (map f r) = map f (dropWhile (\<lambda>c. \<not> isWhiteSpace c) r)"
    for r
    by (simp add: dropWhile_map comp_def assms)
  have dws: "dropWhile isWhiteSpace (map f r) = map f (dropWhile isWhiteSpace r)" for r
    by (simp add: dropWhile_map comp_def assms)
  show ?case
  proof (cases "dropWhile (\<lambda>c. \<not> isWhiteSpace c) s = []")
    case True
    then have "dropWhile (\<lambda>c. \<not> isWhiteSpace c) (map f s) = []"
      by (simp only: dw list.map)
    then show ?thesis
      by (simp only: split_ws_Nil True list.map)
  next
    case False
    then have ne: "dropWhile (\<lambda>c. \<not> isWhiteSpace c) (map f s) \<noteq> []"
      by (simp only: dw) simp
    have "split_ws (map f s)
        = map f (takeWhile (\<lambda>c. \<not> isWhiteSpace c) s)
            # split_ws (map f (dropWhile isWhiteSpace (dropWhile (\<lambda>c. \<not> isWhiteSpace c) s)))"
      by (simp only: split_ws_Cons [OF ne] tw dw dws)
    also have "\<dots> = map (map f) (split_ws s)"
      using "1.IH" [OF False] by (simp only: split_ws_Cons [OF False] list.map)
    finally show ?thesis .
  qed
qed

lemma tokens_toLowerCase:
  assumes "list_all tabulated s" and "0x130 \<notin> set s"
  shows "map length (tokens (toLowerCase eng s)) = map length (tokens s)"
proof -
  have "split_ws (toLowerCase eng s) = map (map (\<lambda>c. hd (toLowerCase_unit c))) (split_ws s)"
    by (simp only: toLowerCase_map [OF assms] split_ws_map [OF isWhiteSpace_toLowerCase_unit])
  then show ?thesis
    by (simp add: tokens_def filter_map comp_def)
qed

lemma queryTerms_short:
  assumes "\<forall>t\<in>set (tokens (toLowerCase eng query)). length t \<le> 3"
  shows "queryTerms eng query = []"
proof -
  have "\<not> 3 < length t" if "t \<in> set (split_ws (toLowerCase eng query))" for t
    using assms that by (cases "t = []") (auto simp: tokens_def)
  then have "filter (\<lambda>t. 3 < length t) (split_ws (toLowerCase eng query)) = []"
    by (simp add: filter_empty_conv)
  then show ?thesis
    by (simp add: queryTerms_def)
qed

section \<open>Scores and ranking\<close>

lemma insort_key_map:
  "insort_key k (h x) (map h xs) = map h (insort_key (\<lambda>y. k (h y)) x xs)"
  by (induction xs) simp_all

lemma sort_key_map:
  "sort_key k (map h xs) = map h (sort_key (\<lambda>y. k (h y)) xs)"
  by (induction xs) (simp_all add: insort_key_map)

lemma scoredChunks_scores:
  assumes "\<forall>c\<in>set chunks. chunk_score eng (toLowerCase eng c) ts 0 = Inr (score c)"
  shows "scoredChunks eng ts chunks = Inr (map (\<lambda>c. (c, score c)) chunks)"
  using assms by (induction chunks) simp_all

lemma ranked_chunks:
  "map fst (take 3 (sort_key (\<lambda>item. - int (snd item))
      (filter (\<lambda>item. 0 < snd item) (map (\<lambda>c. (c, score c)) chunks))))
   = take 3 (sort_key (\<lambda>c. - int (score c)) (filter (\<lambda>c. 0 < score c) chunks))"
proof -
  have "filter (\<lambda>item. 0 < snd item) (map (\<lambda>c. (c, score c)) chunks)
      = map (\<lambda>c. (c, score c)) (filter (\<lambda>c. 0 < score c) chunks)"
    by (simp add: filter_map comp_def)
  then show ?thesis
    by (simp add: sort_key_map take_map comp_def)
qed

lemma retrieveRelevantContent_sorted:
  assumes "\<forall>c\<in>set chunks. chunk_score eng (toLowerCase eng c) (queryTerms eng query) 0 = Inr (score c)"
  shows "retrieveRelevantContent eng chunks query
           = Inr (take 3 (sort_key (\<lambda>c. - int (score c)) (filter (\<lambda>c. 0 < score c) chunks)))"
proof (cases "queryTerms eng query = []")
  case True
  then have "score c = 0" if "c \<in> set chunks" for c
    using assms that by auto
  then have "filter (\<lambda>c. 0 < score c) chunks = []"
    by (simp add: filter_empty_conv)
  then show ?thesis
    using True by (simp add: retrieveRelevantContent_def)
next
  case False
  have "scoredChunks eng (queryTerms eng query) chunks = Inr (map (\<lambda>c. (c, score c)) chunks)"
    by (rule scoredChunks_scores [OF assms])
  with False show ?thesis
    by (simp add: retrieveRelevantContent_def ranked_chunks)
qed

lemma matches_at_Nil: "matches_at [] str"
  by (simp add: matches_at_def)

lemma match_count_empty: "match_count [[]] str = length str + 1"
  by (induction str) (simp_all add: matches_at_Nil)

lemma queryTerms_dots: "queryTerms eng (js ''....'') = [[]]"
  by code_simp

lemma regexp_match_count_empty: "regexp_match_count eng [] str = Inr (length str + 1)"
  by (simp add: regexp_match_count_def match_count_empty)

lemma chunk_score_empty:
  "chunk_score eng (toLowerCase eng c) [[]] 0 = Inr (length (toLowerCase eng c) + 1)"
  by (simp add: regexp_match_count_empty)

lemma alternatives_literal:
  "\<forall>c\<in>set t. \<not> isSyntaxCharacter c \<Longrightarrow> alternatives t = [t]"
  by (induction t) (auto simp: isSyntaxCharacter_def js_def)

lemma chunk_score_literal:
  assumes "\<forall>t\<in>set ts. \<forall>c\<in>set t. tabulated c \<and> \<not> isSyntaxCharacter c"
    and "list_all tabulated str"
  shows "chunk_score eng str ts n = Inr (n + sum_list (map (\<lambda>t. literal_count t str) ts))"
  using assms(1)
proof (induction ts arbitrary: n)
  case Nil
  then show ?case by simp
next
  case (Cons t ts)
  have "regexp_match_count eng t str = Inr (literal_count t str)"
    using Cons.prems assms(2)
    by (simp add: regexp_match_count_def literal_count_def alternatives_literal list_all_iff)
  then show ?case
    using Cons by simp
qed

section \<open>The request handler\<close>

lemma chat_invalid:
  assumes "\<forall>m. body_message b = JString m \<longrightarrow> m = []"
  shows "chat e (Some b) s = (InvalidInput, s)"
  using assms by (cases "body_message b") (simp_all add: chat_def chat_try_def)

lemma chat_no_body: "chat e None s = (ModelCallFailed (err_message undefined_body_error), s)"
  by (simp add: chat_def chat_try_def)

lemma sessionMemories_loadPDF: "sessionMemories (snd (loadPDF e s)) = sessionMemories s"
  by (simp add: loadPDF_def readPDF_def split: option.splits sum.splits)

lemma sessionMemories_rag: "sessionMemories (snd (rag e u m s)) = sessionMemories s"
  using sessionMemories_loadPDF [of e s]
  by (auto simp: rag_def split: prod.splits sum.splits)

lemma history_rag: "history (snd (rag e u m s)) sid = history s sid"
  by (simp add: history_def sessionMemories_rag)

lemma history_getSessionMemory: "history (getSessionMemory sid' s) sid = history s sid"
  by (simp add: history_def getSessionMemory_def split: option.splits)

lemma history_saveContext:
  "history (saveContext sid' m c s) sid
     = (if sid = sid' then history s sid @ [HumanMessage m, AIMessage c] else history s sid)"
  by (simp add: history_def saveContext_def)

lemma history_respond:
  assumes "respond e m u sid' md h sources s = (r, s')"
  shows "history s' sid
     = history s sid @
       (case r of
          Inr (Reply reply srcs) \<Rightarrow>
            if md \<noteq> js ''agent'' \<and> sid' = sid then [HumanMessage m, AIMessage reply] else []
        | _ \<Rightarrow> [])"
  using assms
  by (auto simp: respond_def history_saveContext split: if_splits sum.splits)

lemma chat_valid:
  assumes "body_message b = JString m" and "m \<noteq> []"
  shows "chat e (Some b) s =
     (case loadMemoryVariables (sessionId_of b) (getSessionMemory (sessionId_of b) s) of
        Inl err \<Rightarrow> (ModelCallFailed (err_message err), getSessionMemory (sessionId_of b) s)
      | Inr chat_history \<Rightarrow>
          (case rag e (useRAG_of b) m (getSessionMemory (sessionId_of b) s) of
             (Inl err, s') \<Rightarrow> (ModelCallFailed (err_message err), s')
           | (Inr sources, s') \<Rightarrow>
               (case respond e m (useRAG_of b) (sessionId_of b) (mode_of b)
                       chat_history sources s' of
                  (Inl err, s'') \<Rightarrow> (ModelCallFailed (err_message err), s'')
                | (Inr r, s'') \<Rightarrow> (r, s''))))"
  using assms
  by (simp add: chat_def chat_try_def split: sum.splits prod.splits)

lemma history_chat_body:
  "history (snd (chat e (Some b) s)) sid = history s sid @ turn sid (Some b) (fst (chat e (Some b) s))"
proof (cases "\<exists>m. body_message b = JString m \<and> m \<noteq> []")
  case False
  then have "chat e (Some b) s = (InvalidInput, s)"
    by (intro chat_invalid) blast
  then show ?thesis
    by (simp add: turn_def)
next
  case True
  then obtain m where m: "body_message b = JString m" "m \<noteq> []"
    by blast
  let ?sid = "sessionId_of b"
  let ?s1 = "getSessionMemory ?sid s"
  show ?thesis
  proof (cases "loadMemoryVariables ?sid ?s1")
    case (Inl err)
    then show ?thesis
      by (simp add: chat_valid [OF m] history_getSessionMemory turn_def)
  next
    case (Inr h)
    obtain r2 s2 where rag: "rag e (useRAG_of b) m ?s1 = (r2, s2)"
      by (cases "rag e (useRAG_of b) m ?s1")
    have h2: "history s2 sid = history s sid"
      using history_rag [of e "useRAG_of b" m ?s1 sid] rag
      by (simp add: history_getSessionMemory)
    show ?thesis
    proof (cases r2)
      case (Inl err)
      then show ?thesis
        using Inr rag h2 by (simp add: chat_valid [OF m] turn_def)
    next
      case (Inr sources)
      obtain r3 s3 where resp:
        "respond e m (useRAG_of b) ?sid (mode_of b) h sources s2 = (r3, s3)"
        by (cases "respond e m (useRAG_of b) ?sid (mode_of b) h sources s2")
      have "chat e (Some b) s
          = (case r3 of Inl err \<Rightarrow> ModelCallFailed (err_message err) | Inr r \<Rightarrow> r, s3)"
        using \<open>loadMemoryVariables ?sid ?s1 = Inr h\<close> rag Inr resp
        by (simp add: chat_valid [OF m] split: sum.splits)
      moreover have "\<forall>reply srcs. r3 \<noteq> Inr InvalidInput \<and> r3 \<noteq> Inr (ModelCallFailed reply)"
        using resp by (auto simp: respond_def split: if_splits sum.splits)
      ultimately show ?thesis
        using history_respond [OF resp, of sid] h2 m
        by (auto simp: turn_def split: sum.splits response.splits)
    qed
  qed
qed

lemma history_chat:
  "history (snd (chat e req s)) sid = history s sid @ turn sid req (fst (chat e req s))"
proof (cases req)
  case None
  then show ?thesis
    by (simp add: chat_no_body turn_def)
next
  case (Some b)
  then show ?thesis
    by (simp only: history_chat_body)
qed

lemma history_chat_all:
  "history (snd (chat_all rs s)) sid
     = history s sid @ concat (map (\<lambda>((e, req), r). turn sid req r) (zip rs (fst (chat_all rs s))))"
proof (induction rs arbitrary: s)
  case Nil
  then show ?case by simp
next
  case (Cons x rs)
  obtain e req where x: "x = (e, req)" by (cases x)
  obtain r s' where step: "chat e req s = (r, s')" by (cases "chat e req s")
  obtain rs' s'' where rest: "chat_all rs s' = (rs', s'')" by (cases "chat_all rs s'")
  have "history s' sid = history s sid @ turn sid req r"
    using history_chat [of e req s sid] step by simp
  moreover have "history s'' sid
      = history s' sid @ concat (map (\<lambda>((e, req), r). turn sid req r) (zip rs rs'))"
    using Cons.IH [of s'] rest by simp
  ultimately show ?case
    using x step rest by simp
qed

lemma retrieve_no_chunks: "retrieveRelevantContent eng [] query = Inr []"
  by (simp add: retrieveRelevantContent_def)

lemma loadPDF_absent:
  assumes "pdf_file e = None" and "pdfText s = None"
  shows "loadPDF e s = (Inr (js ''PDF not found.''), s)"
  using assms by (simp add: loadPDF_def readPDF_def)

lemma pdf_getSessionMemory:
  "pdfText (getSessionMemory sid s) = pdfText s \<and> pdfChunks (getSessionMemory sid s) = pdfChunks s"
  by (simp add: getSessionMemory_def split: option.splits)

lemma loadMemoryVariables_getSessionMemory:
  assumes "sid \<notin> set Object_prototype_properties"
  shows "loadMemoryVariables sid (getSessionMemory sid s) = Inr (history s sid)"
  using assms
  by (simp add: loadMemoryVariables_def getSessionMemory_def history_def split: option.splits)

section \<open>The claims of the specification\<close>

subsection \<open>C1: the length of a chunk\<close>

text \<open>
  Claim C1. When \<^verbatim>\<open>loadPDF\<close> loads a document for the first time, every chunk it
  produces has at most \<open>CHUNK_SIZE\<close> (800) characters, unless the chunk is a single
  whitespace-delimited word of the document that is longer than that; and every
  word longer than \<open>CHUNK_SIZE\<close> is a chunk of its own.
\<close>

theorem chunk_length_bound:
  assumes "pdf_file e = Some (Inr text)" and "pdfText s = None" and "pdfChunks s = []"
  shows "(\<forall>c\<in>set (pdfChunks (snd (loadPDF e s))).
            length c \<le> CHUNK_SIZE \<or> (c \<in> set (tokens text) \<and> CHUNK_SIZE < length c))
       \<and> (\<forall>w\<in>set (tokens text). CHUNK_SIZE < length w \<longrightarrow> w \<in> set (pdfChunks (snd (loadPDF e s))))"
proof -
  have chunks: "pdfChunks (snd (loadPDF e s)) = chunk_words (split_ws text) []"
    using assms by (simp add: loadPDF_fresh)
  have "length c \<le> CHUNK_SIZE \<or> (c \<in> set (tokens text) \<and> CHUNK_SIZE < length c)"
    if "c \<in> set (chunk_words (split_ws text) [])" for c
    using chunk_words_bound [OF that] by (auto simp: tokens_def)
  moreover have "w \<in> set (chunk_words (split_ws text) [])"
    if "w \<in> set (tokens text)" and "CHUNK_SIZE < length w" for w
    using that by (intro chunk_words_oversized) (simp_all add: tokens_def)
  ultimately show ?thesis
    unfolding chunks by blast
qed

theorem chunk_length_bound_witness:
  "pdfChunks (snd (loadPDF example_env initial_state)) = [handbook]
   \<and> length handbook \<le> CHUNK_SIZE
   \<and> CHUNK_SIZE < length (replicate 801 (120::nat))
   \<and> replicate 801 120
       \<in> set (pdfChunks (snd (loadPDF (example_env\<lparr>pdf_file := Some (Inr (replicate 801 120))\<rparr>)
                                initial_state)))"
proof -
  let ?w = "replicate 801 (120::nat)"
  let ?e = "example_env\<lparr>pdf_file := Some (Inr ?w)\<rparr>"
  have chunks: "pdfChunks (snd (loadPDF example_env initial_state)) = [handbook]"
    by code_simp
  have small: "length handbook \<le> CHUNK_SIZE"
    by code_simp
  have h1: "pdf_file ?e = Some (Inr ?w)" by simp
  have h2: "pdfText initial_state = None" by (simp add: initial_state_def)
  have h3: "pdfChunks initial_state = []" by (simp add: initial_state_def)
  have "\<forall>c\<in>set ?w. \<not> isWhiteSpace c"
    by (simp add: isWhiteSpace_def)
  then have tok: "?w \<in> set (tokens ?w)"
    by (simp add: tokens_no_space)
  have big: "CHUNK_SIZE < length ?w"
    by (simp add: CHUNK_SIZE_def)
  have "?w \<in> set (pdfChunks (snd (loadPDF ?e initial_state)))"
    using chunk_length_bound [OF h1 h2 h3] tok big by blast
  with chunks small big show ?thesis by blast
qed

subsection \<open>C2: the chunks keep the words\<close>

text \<open>
  Claim C2. The chunks of a document, joined with a single space between
  consecutive chunks, have the whitespace-delimited tokens of the document text, in
  the same order. A token is a maximal run of characters that are not white space
  (\<open>tokens\<close>). The pieces of \<^verbatim>\<open>split(/\s+/)\<close> are these tokens and, for a text that
  starts or ends with white space, an empty string at that end. The empty pieces
  need not be the same for the joined chunks and for the text; the tokens are.
\<close>

theorem chunks_preserve_tokens:
  assumes "pdf_file e = Some (Inr text)" and "pdfText s = None" and "pdfChunks s = []"
  shows "tokens (join (js '' '') (pdfChunks (snd (loadPDF e s)))) = tokens text"
proof -
  have "pdfChunks (snd (loadPDF e s)) = chunk_words (split_ws text) []"
    using assms by (simp add: loadPDF_fresh)
  then have "tokens (join (js '' '') (pdfChunks (snd (loadPDF e s))))
      = concat (map tokens (chunk_words (split_ws text) []))"
    by (simp only: tokens_join)
  also have "\<dots> = tokens text"
    by (simp add: chunk_words_tokens concat_tokens_split_ws)
  finally show ?thesis .
qed

theorem chunks_preserve_tokens_witness:
  "pdfChunks (snd (loadPDF (example_env\<lparr>pdf_file := Some (Inr (js '' ab  cd ''))\<rparr>) initial_state))
     = [js ''ab cd '']
   \<and> tokens (join (js '' '')
        (pdfChunks (snd (loadPDF (example_env\<lparr>pdf_file := Some (Inr (js '' ab  cd ''))\<rparr>)
                           initial_state))))
     = [js ''ab'', js ''cd'']"
proof -
  let ?e = "example_env\<lparr>pdf_file := Some (Inr (js '' ab  cd ''))\<rparr>"
  have h1: "pdf_file ?e = Some (Inr (js '' ab  cd ''))" by simp
  have h2: "pdfText initial_state = None" by (simp add: initial_state_def)
  have h3: "pdfChunks initial_state = []" by (simp add: initial_state_def)
  have "tokens (js '' ab  cd '') = [js ''ab'', js ''cd'']"
    by code_simp
  then have "tokens (join (js '' '') (pdfChunks (snd (loadPDF ?e initial_state))))
      = [js ''ab'', js ''cd'']"
    using chunks_preserve_tokens [OF h1 h2 h3] by (simp only:)
  moreover have "pdfChunks (snd (loadPDF ?e initial_state)) = [js ''ab cd '']"
    by code_simp
  ultimately show ?thesis by blast
qed

subsection \<open>C3: a term is a pattern, not a literal\<close>

text \<open>
  Claim C3 reads the score as the number of literal occurrences of each term. The
  code hands the term to \<^verbatim>\<open>new RegExp(term, "gi")\<close> without escaping it, so a term
  is the source of a regular expression. For the query \<^verbatim>\<open>plan|xyz\<close> and the chunk
  \<^verbatim>\<open>planning\<close> the term is an alternation that matches \<^verbatim>\<open>plan\<close>: the score is 1 and
  the chunk is returned, while the term occurs nowhere in the chunk as a literal
  string. For terms without syntax characters the score is the sum of the literal
  counts (\<open>chunk_score_literal\<close>).
\<close>

theorem alternation_term_not_literal:
  "retrieveRelevantContent eng [js ''planning''] (js ''plan|xyz'') = Inr [js ''planning'']
   \<and> chunk_score eng (toLowerCase eng (js ''planning'')) (queryTerms eng (js ''plan|xyz'')) 0 = Inr 1
   \<and> sum_list (map (\<lambda>t. literal_count t (toLowerCase eng (js ''planning'')))
                (queryTerms eng (js ''plan|xyz''))) = 0"
  by code_simp

theorem alternation_term_not_literal_witness:
  "retrieveRelevantContent example_engine [js ''planning''] (js ''plan|xyz'') = Inr [js ''planning'']
   \<and> chunk_score example_engine (toLowerCase example_engine (js ''planning''))
        (queryTerms example_engine (js ''plan|xyz'')) 0 = Inr 1
   \<and> sum_list (map (\<lambda>t. literal_count t (toLowerCase example_engine (js ''planning'')))
                (queryTerms example_engine (js ''plan|xyz''))) = 0"
  by (rule alternation_term_not_literal)

subsection \<open>C4: filter, stable sort, first three\<close>

text \<open>
  Claim C4. When every chunk has a score, \<^verbatim>\<open>retrieveRelevantContent\<close> returns the
  first three entries of a list \<open>ranked\<close> that holds exactly the chunks of positive
  score (as a multiset), in descending order of score, the chunks of equal score
  in the order of the document. A query without terms gives every chunk the score 0.
\<close>

theorem retrieve_ranked_top3:
  assumes "\<forall>c\<in>set chunks. chunk_score eng (toLowerCase eng c) (queryTerms eng query) 0 = Inr (score c)"
  shows "\<exists>ranked.
           retrieveRelevantContent eng chunks query = Inr (take 3 ranked)
         \<and> mset ranked = mset (filter (\<lambda>c. 0 < score c) chunks)
         \<and> sorted (map (\<lambda>c. - int (score c)) ranked)
         \<and> (\<forall>k. filter (\<lambda>c. score c = k) ranked
                  = filter (\<lambda>c. score c = k) (filter (\<lambda>c. 0 < score c) chunks))"
proof -
  define ranked where
    "ranked = sort_key (\<lambda>c. - int (score c)) (filter (\<lambda>c. 0 < score c) chunks)"
  have "retrieveRelevantContent eng chunks query = Inr (take 3 ranked)"
    unfolding ranked_def by (rule retrieveRelevantContent_sorted [OF assms])
  moreover have "mset ranked = mset (filter (\<lambda>c. 0 < score c) chunks)"
    by (simp add: ranked_def)
  moreover have "sorted (map (\<lambda>c. - int (score c)) ranked)"
    by (simp add: ranked_def)
  moreover have "filter (\<lambda>c. score c = k) ranked
      = filter (\<lambda>c. score c = k) (filter (\<lambda>c. 0 < score c) chunks)" for k
  proof -
    have "filter (\<lambda>c. - int (score c) = - int k) ranked
        = filter (\<lambda>c. - int (score c) = - int k) (filter (\<lambda>c. 0 < score c) chunks)"
      unfolding ranked_def by (rule sort_key_stable)
    then show ?thesis by simp
  qed
  ultimately show ?thesis by blast
qed

theorem retrieve_ranked_top3_witness:
  "(\<exists>ranked.
      retrieveRelevantContent example_engine example_chunks (js ''plan?'') = Inr (take 3 ranked)
    \<and> mset ranked
        = mset (filter (\<lambda>c. 0 < literal_count (js ''plan'') (toLowerCase example_engine c))
                  example_chunks)
    \<and> sorted (map (\<lambda>c. - int (literal_count (js ''plan'') (toLowerCase example_engine c))) ranked)
    \<and> (\<forall>k. filter (\<lambda>c. literal_count (js ''plan'') (toLowerCase example_engine c) = k) ranked
             = filter (\<lambda>c. literal_count (js ''plan'') (toLowerCase example_engine c) = k)
                 (filter (\<lambda>c. 0 < literal_count (js ''plan'') (toLowerCase example_engine c))
                    example_chunks)))
   \<and> retrieveRelevantContent example_engine example_chunks (js ''plan?'')
       = Inr [js ''Plan plan'', js ''plan'', js ''planning'']"
proof -
  have scores: "\<forall>c\<in>set example_chunks.
      chunk_score example_engine (toLowerCase example_engine c)
          (queryTerms example_engine (js ''plan?'')) 0
        = Inr (literal_count (js ''plan'') (toLowerCase example_engine c))"
    by code_simp
  have "retrieveRelevantContent example_engine example_chunks (js ''plan?'')
      = Inr [js ''Plan plan'', js ''plan'', js ''planning'']"
    by code_simp
  with retrieve_ranked_top3 [OF scores] show ?thesis by blast
qed

subsection \<open>C5: queries of short tokens\<close>

text \<open>
  The claim as stated measures the tokens of the query. The code measures the
  pieces of \<^verbatim>\<open>query.toLowerCase()\<close>, and lower-casing can lengthen a token: capital
  I with dot above (U+0130) becomes two code units. The query of the three code
  units a, U+0130, b is one token of length 3; its lower case has length 4, survives
  the filter, and retrieves a chunk that holds it.
\<close>

theorem short_token_retrieves_chunk:
  "tokens dotted_I_word = [dotted_I_word]
   \<and> length dotted_I_word = 3
   \<and> toLowerCase example_engine dotted_I_word = [0x61, 0x69, 0x307, 0x62]
   \<and> queryTerms example_engine dotted_I_word = [[0x61, 0x69, 0x307, 0x62]]
   \<and> retrieveRelevantContent example_engine [dotted_I_word] dotted_I_word = Inr [dotted_I_word]"
  by code_simp

text \<open>
  Claim C5, as amended. A query retrieves nothing, whatever the chunks are, when
  every whitespace-delimited token of the lower-cased query has at most three
  characters. That is so when every token of the query itself has at most three
  characters and lower-casing keeps the lengths: for the code units of the tables,
  whenever the query does not hold U+0130.
\<close>

theorem short_lowercase_tokens_retrieve_nothing:
  "((\<forall>t\<in>set (tokens (toLowerCase eng query)). length t \<le> 3)
      \<longrightarrow> retrieveRelevantContent eng chunks query = Inr [])
   \<and> (list_all tabulated query \<and> 0x130 \<notin> set query \<and> (\<forall>t\<in>set (tokens query). length t \<le> 3)
      \<longrightarrow> retrieveRelevantContent eng chunks query = Inr [])"
proof -
  have lower: "retrieveRelevantContent eng chunks query = Inr []"
    if "\<forall>t\<in>set (tokens (toLowerCase eng query)). length t \<le> 3"
    using queryTerms_short [OF that] by (simp add: retrieveRelevantContent_def)
  have "\<forall>t\<in>set (tokens (toLowerCase eng query)). length t \<le> 3"
    if "list_all tabulated query" and "0x130 \<notin> set query"
      and short: "\<forall>t\<in>set (tokens query). length t \<le> 3"
  proof -
    have "\<forall>n\<in>set (map length (tokens query)). n \<le> 3"
      using short by simp
    then have "\<forall>n\<in>set (map length (tokens (toLowerCase eng query))). n \<le> 3"
      by (simp only: tokens_toLowerCase [OF that(1,2)])
    then show ?thesis by simp
  qed
  with lower show ?thesis by blast
qed

theorem short_lowercase_tokens_retrieve_nothing_witness:
  "tokens (toLowerCase example_engine (js ''Is IT ok'')) = [js ''is'', js ''it'', js ''ok'']
   \<and> tokens (js ''Is IT ok'') = [js ''Is'', js ''IT'', js ''ok'']
   \<and> retrieveRelevantContent example_engine [handbook, js ''Is IT ok''] (js ''Is IT ok'') = Inr []"
proof -
  have lower: "tokens (toLowerCase example_engine (js ''Is IT ok'')) = [js ''is'', js ''it'', js ''ok'']"
    by code_simp
  have plain: "tokens (js ''Is IT ok'') = [js ''Is'', js ''IT'', js ''ok'']"
    by code_simp
  have h1: "\<forall>t\<in>set (tokens (toLowerCase example_engine (js ''Is IT ok''))). length t \<le> 3"
    by code_simp
  have h2: "list_all tabulated (js ''Is IT ok'') \<and> 0x130 \<notin> set (js ''Is IT ok'')
      \<and> (\<forall>t\<in>set (tokens (js ''Is IT ok'')). length t \<le> 3)"
    by code_simp
  have "retrieveRelevantContent example_engine [handbook, js ''Is IT ok''] (js ''Is IT ok'') = Inr []"
    using short_lowercase_tokens_retrieve_nothing
      [of example_engine "js ''Is IT ok''" "[handbook, js ''Is IT ok'']"] h1 h2
    by blast
  with lower plain show ?thesis by blast
qed

subsection \<open>C6: agent mode\<close>

text \<open>
  The claim as stated says that agent mode bypasses retrieval entirely, whatever
  \<^verbatim>\<open>useRAG\<close> is. With \<^verbatim>\<open>useRAG\<close> left at its default the handler loads and chunks
  the handbook before it calls the agent, and with \<^verbatim>\<open>useRAG\<close> false it does not; and
  when the handbook cannot be parsed the request in agent mode fails with status 500
  under the default, and is answered by the agent when \<^verbatim>\<open>useRAG\<close> is false.
\<close>

theorem agent_mode_runs_rag:
  "pdfChunks (snd (chat example_env (Some agent_body) initial_state)) = [handbook]
   \<and> pdfChunks (snd (chat example_env (Some (agent_body\<lparr>body_useRAG := JBool False\<rparr>))
                       initial_state)) = []
   \<and> fst (chat (example_env\<lparr>pdf_file := Some (Inl (Error (js ''Invalid PDF structure'')))\<rparr>)
            (Some agent_body) initial_state)
       = ModelCallFailed (js ''Invalid PDF structure'')
   \<and> fst (chat (example_env\<lparr>pdf_file := Some (Inl (Error (js ''Invalid PDF structure'')))\<rparr>)
            (Some (agent_body\<lparr>body_useRAG := JBool False\<rparr>)) initial_state)
       = Reply (js ''Agent reply'') []"
  by code_simp

text \<open>
  Claim C6, as amended. For a request with a non-empty string message and mode
  \<^verbatim>\<open>agent\<close>: the handler never consults the chat model (its answer is the same for
  every chat model \<open>f\<close>, so no system or history message is used), it appends nothing
  to any session history, and every answer of status 200 carries the agent's reply
  to the raw user message and the empty list of sources. Retrieval is not bypassed.
  The handler runs three steps in this order: it loads the memory of the session,
  it runs the retrieval step \<open>rag\<close> with the request's \<^verbatim>\<open>useRAG\<close>, and it calls the
  agent. The first step that throws makes the answer status 500 with the message of
  that exception, and the later steps do not run; when none throws, the answer is
  the agent's reply with no sources, in the state the retrieval step left.
\<close>

theorem agent_mode_response:
  assumes "body_message b = JString m" and "m \<noteq> []" and "body_mode b = Some (js ''agent'')"
  shows "chat (e\<lparr>chatModel_invoke := f\<rparr>) (Some b) s = chat e (Some b) s
       \<and> history (snd (chat e (Some b) s)) sid = history s sid
       \<and> (\<forall>reply sources. fst (chat e (Some b) s) = Reply reply sources \<longrightarrow>
              sources = [] \<and> agent_processMessage e (sessionId_of b) m = Inr reply)
       \<and> chat e (Some b) s
           = (case loadMemoryVariables (sessionId_of b) (getSessionMemory (sessionId_of b) s) of
                Inl err \<Rightarrow> (ModelCallFailed (err_message err), getSessionMemory (sessionId_of b) s)
              | Inr chat_history \<Rightarrow>
                  (case rag e (useRAG_of b) m (getSessionMemory (sessionId_of b) s) of
                     (Inl err, s') \<Rightarrow> (ModelCallFailed (err_message err), s')
                   | (Inr sources, s') \<Rightarrow>
                       (case agent_processMessage e (sessionId_of b) m of
                          Inl err \<Rightarrow> (ModelCallFailed (err_message err), s')
                        | Inr reply \<Rightarrow> (Reply reply [], s'))))"
proof -
  have "js ''agent'' \<noteq> []"
    by (simp add: js_def)
  then have mode: "mode_of b = js ''agent''"
    using assms(3) by (simp add: mode_of_def)
  have resp: "respond e' m u sid' (js ''agent'') h sources s'
      = (case agent_processMessage e' sid' m of
           Inl err \<Rightarrow> (Inl err, s') | Inr reply \<Rightarrow> (Inr (Reply reply []), s'))"
    for e' u sid' h sources s'
    by (simp add: respond_def)
  have "readPDF (e\<lparr>chatModel_invoke := f\<rparr>) s' = readPDF e s'" for s'
    by (simp add: readPDF_def)
  then have "loadPDF (e\<lparr>chatModel_invoke := f\<rparr>) s' = loadPDF e s'" for s'
    by (simp add: loadPDF_def split: option.splits)
  then have rag_f: "rag (e\<lparr>chatModel_invoke := f\<rparr>) u m s' = rag e u m s'" for u s'
    by (simp add: rag_def split: prod.splits sum.splits)
  have 1: "chat (e\<lparr>chatModel_invoke := f\<rparr>) (Some b) s = chat e (Some b) s"
    by (simp add: chat_valid [OF assms(1,2)] mode resp rag_f
          cong: sum.case_cong prod.case_cong)
  have "turn sid (Some b) r = []" for r
    using mode by (simp add: turn_def split: response.splits jsvalue.splits)
  then have 2: "history (snd (chat e (Some b) s)) sid = history s sid"
    by (simp add: history_chat)
  have 3: "sources = [] \<and> agent_processMessage e (sessionId_of b) m = Inr reply"
    if "fst (chat e (Some b) s) = Reply reply sources" for reply sources
    using that
    by (auto simp: chat_valid [OF assms(1,2)] mode resp split: sum.splits prod.splits)
  have 4: "chat e (Some b) s
      = (case loadMemoryVariables (sessionId_of b) (getSessionMemory (sessionId_of b) s) of
           Inl err \<Rightarrow> (ModelCallFailed (err_message err), getSessionMemory (sessionId_of b) s)
         | Inr chat_history \<Rightarrow>
             (case rag e (useRAG_of b) m (getSessionMemory (sessionId_of b) s) of
                (Inl err, s') \<Rightarrow> (ModelCallFailed (err_message err), s')
              | (Inr sources, s') \<Rightarrow>
                  (case agent_processMessage e (sessionId_of b) m of
                     Inl err \<Rightarrow> (ModelCallFailed (err_message err), s')
                   | Inr reply \<Rightarrow> (Reply reply [], s'))))"
    by (simp add: chat_valid [OF assms(1,2)] mode resp split: sum.splits prod.splits)
  from 1 2 3 4 show ?thesis by blast
qed

theorem agent_mode_response_witness:
  "chat (example_env\<lparr>chatModel_invoke := (\<lambda>messages. Inl (Error (js ''Service unavailable'')))\<rparr>)
       (Some agent_body) initial_state
     = chat example_env (Some agent_body) initial_state
   \<and> history (snd (chat example_env (Some agent_body) initial_state)) (js ''default'') = []
   \<and> fst (chat example_env (Some agent_body) initial_state) = Reply (js ''Agent reply'') []
   \<and> agent_processMessage example_env (sessionId_of agent_body)
        (js ''What is the vacation policy?'') = Inr (js ''Agent reply'')
   \<and> fst (chat example_env (Some (agent_body\<lparr>body_sessionId := Some (js ''constructor'')\<rparr>))
            initial_state)
       = ModelCallFailed (js ''memory.loadMemoryVariables is not a function'')"
proof -
  have h1: "body_message agent_body = JString (js ''What is the vacation policy?'')"
    by (simp add: agent_body_def example_body_def)
  have h2: "js ''What is the vacation policy?'' \<noteq> []"
    by (simp add: js_def)
  have h3: "body_mode agent_body = Some (js ''agent'')"
    by (simp add: agent_body_def)
  have reply: "fst (chat example_env (Some agent_body) initial_state) = Reply (js ''Agent reply'') []"
    by code_simp
  have inherited:
    "fst (chat example_env (Some (agent_body\<lparr>body_sessionId := Some (js ''constructor'')\<rparr>))
            initial_state)
       = ModelCallFailed (js ''memory.loadMemoryVariables is not a function'')"
    by code_simp
  have empty: "history initial_state (js ''default'') = []"
    by (simp add: history_def initial_state_def)
  note all = agent_mode_response [OF h1 h2 h3, where e = example_env
        and f = "\<lambda>messages. Inl (Error (js ''Service unavailable''))"
        and s = initial_state and sid = "js ''default''"]
  have same: "chat (example_env\<lparr>chatModel_invoke := (\<lambda>messages. Inl (Error (js ''Service unavailable'')))\<rparr>)
       (Some agent_body) initial_state
     = chat example_env (Some agent_body) initial_state"
    by (rule conjunct1 [OF all])
  have hist: "history (snd (chat example_env (Some agent_body) initial_state)) (js ''default'') = []"
    using conjunct1 [OF conjunct2 [OF all]] empty by (simp only:)
  have "agent_processMessage example_env (sessionId_of agent_body)
        (js ''What is the vacation policy?'') = Inr (js ''Agent reply'')"
    using conjunct1 [OF conjunct2 [OF conjunct2 [OF all]]] reply by blast
  with same hist reply inherited show ?thesis by blast
qed

subsection \<open>C7: an invalid message\<close>




subsection \<open>C8: the history of a session\<close>

text \<open>
  Claim C8. After any sequence of requests the history of a session is its history
  before, followed, in the order of the requests, by the pair of user message and
  reply of every request for that session that was answered with status 200 outside
  agent mode (\<open>turn\<close>); so its length grows by two for each of them. A request that
  fails with status 500 leaves the history of every session as it was.
\<close>

theorem history_append_only:
  "history (snd (chat_all rs s)) sid
     = history s sid
       @ concat (map (\<lambda>((e', req'), r). turn sid req' r) (zip rs (fst (chat_all rs s))))
   \<and> length (history (snd (chat_all rs s)) sid)
     = length (history s sid)
       + 2 * length (filter (\<lambda>((e', req'), r). turn sid req' r \<noteq> [])
                       (zip rs (fst (chat_all rs s))))
   \<and> (\<forall>msg. fst (chat e req s) = ModelCallFailed msg \<longrightarrow>
          history (snd (chat e req s)) sid = history s sid)"
proof -
  have len: "length (concat (map (\<lambda>((e', req'), r). turn sid req' r) xs))
      = 2 * length (filter (\<lambda>((e', req'), r). turn sid req' r \<noteq> []) xs)"
    for xs :: "((env \<times> body option) \<times> response) list"
    by (induction xs)
       (auto simp: turn_def split: response.splits jsvalue.splits option.splits)
  have "history (snd (chat e req s)) sid = history s sid"
    if "fst (chat e req s) = ModelCallFailed msg" for msg
    using history_chat [of e req s sid] that by (simp add: turn_def)
  then show ?thesis
    using history_chat_all [of rs s sid] len by simp
qed

theorem history_append_only_witness:
  "fst (chat_all example_session initial_state)
     = [Reply (js ''Two days per month.'') [handbook], Reply (js ''Agent reply'') [],
        ModelCallFailed (js ''Service unavailable''),
        ModelCallFailed (err_message undefined_body_error),
        Reply (js ''I do not know.'') []]
   \<and> history (snd (chat_all example_session initial_state)) (js ''default'')
     = [HumanMessage (js ''What is the vacation policy?''), AIMessage (js ''Two days per month.''),
        HumanMessage (js ''Thanks for the help''), AIMessage (js ''I do not know.'')]
   \<and> length (history (snd (chat_all example_session initial_state)) (js ''default'')) = 2 * 2"
proof -
  have responses: "fst (chat_all example_session initial_state)
     = [Reply (js ''Two days per month.'') [handbook], Reply (js ''Agent reply'') [],
        ModelCallFailed (js ''Service unavailable''),
        ModelCallFailed (err_message undefined_body_error),
        Reply (js ''I do not know.'') []]"
    by code_simp
  have empty: "history initial_state (js ''default'') = []"
    by (simp add: history_def initial_state_def)
  have turns: "concat (map (\<lambda>((e', req'), r). turn (js ''default'') req' r)
        (zip example_session
          [Reply (js ''Two days per month.'') [handbook], Reply (js ''Agent reply'') [],
           ModelCallFailed (js ''Service unavailable''),
           ModelCallFailed (err_message undefined_body_error),
           Reply (js ''I do not know.'') []]))
      = [HumanMessage (js ''What is the vacation policy?''), AIMessage (js ''Two days per month.''),
         HumanMessage (js ''Thanks for the help''), AIMessage (js ''I do not know.'')]"
    by code_simp
  have "history (snd (chat_all example_session initial_state)) (js ''default'')
      = history initial_state (js ''default'')
        @ concat (map (\<lambda>((e', req'), r). turn (js ''default'') req' r)
            (zip example_session (fst (chat_all example_session initial_state))))"
    by (rule conjunct1 [OF history_append_only [of example_session initial_state "js ''default''"]])
  then have hist: "history (snd (chat_all example_session initial_state)) (js ''default'')
      = [HumanMessage (js ''What is the vacation policy?''), AIMessage (js ''Two days per month.''),
         HumanMessage (js ''Thanks for the help''), AIMessage (js ''I do not know.'')]"
    by (simp only: responses turns empty append_Nil)
  then have "length (history (snd (chat_all example_session initial_state)) (js ''default'')) = 2 * 2"
    by simp
  with responses hist show ?thesis by blast
qed

subsection \<open>C9: the document is absent\<close>

text \<open>
  Claim C9. When the handbook file does not exist and nothing was loaded before,
  \<^verbatim>\<open>loadPDF\<close> returns the text \<^verbatim>\<open>PDF not found.\<close> and changes nothing, retrieval
  returns no chunks, the system message of a request with retrieval is the fixed
  refusal, and such a request (valid message, not in agent mode, a session id that
  is no inherited property of objects) is answered with the reply the chat model
  gives to that prompt and with no sources; the chunk list is still empty afterwards.
\<close>

theorem missing_pdf_degrades:
  assumes "pdf_file e = None" and "pdfText s = None" and "pdfChunks s = []"
    and "body_message b = JString m" and "m \<noteq> []"
    and "useRAG_of b" and "mode_of b \<noteq> js ''agent''"
    and "sessionId_of b \<notin> set Object_prototype_properties"
    and "chatModel_invoke e
           (SystemMessage refusalPrompt # history s (sessionId_of b) @ [HumanMessage m])
         = Inr content"
  shows "loadPDF e s = (Inr (js ''PDF not found.''), s)
       \<and> rag e True m s = (Inr [], s)
       \<and> systemMessage True [] = SystemMessage refusalPrompt
       \<and> chat e (Some b) s
           = (Reply content [],
              saveContext (sessionId_of b) m content (getSessionMemory (sessionId_of b) s))
       \<and> pdfChunks (snd (chat e (Some b) s)) = []"
proof -
  let ?sid = "sessionId_of b"
  let ?s1 = "getSessionMemory ?sid s"
  have load: "loadPDF e s = (Inr (js ''PDF not found.''), s)"
    by (rule loadPDF_absent [OF assms(1,2)])
  have rag: "rag e True m s = (Inr [], s)"
    by (simp add: rag_def load assms(3) retrieve_no_chunks)
  have "loadPDF e ?s1 = (Inr (js ''PDF not found.''), ?s1)"
    by (rule loadPDF_absent) (simp_all add: assms(1,2) pdf_getSessionMemory)
  then have rag1: "rag e (useRAG_of b) m ?s1 = (Inr [], ?s1)"
    using assms(6) by (simp add: rag_def assms(3) pdf_getSessionMemory retrieve_no_chunks)
  have resp: "respond e m (useRAG_of b) ?sid (mode_of b) (history s ?sid) [] ?s1
      = (Inr (Reply content []), saveContext ?sid m content ?s1)"
    using assms(6,7,9) by (simp add: respond_def systemMessage_def)
  have chat: "chat e (Some b) s = (Reply content [], saveContext ?sid m content ?s1)"
    by (simp add: chat_valid [OF assms(4,5)] loadMemoryVariables_getSessionMemory [OF assms(8)]
          rag1 resp)
  have "pdfChunks (saveContext ?sid m content ?s1) = []"
    by (simp add: saveContext_def pdf_getSessionMemory assms(3))
  moreover have "systemMessage True [] = SystemMessage refusalPrompt"
    by (simp add: systemMessage_def)
  ultimately show ?thesis
    using load rag chat by simp
qed

theorem missing_pdf_degrades_witness:
  "loadPDF (example_env\<lparr>pdf_file := None\<rparr>) initial_state
     = (Inr (js ''PDF not found.''), initial_state)
   \<and> fst (chat (example_env\<lparr>pdf_file := None\<rparr>) (Some example_body) initial_state)
       = Reply (js ''I do not know.'') []
   \<and> pdfChunks (snd (chat (example_env\<lparr>pdf_file := None\<rparr>) (Some example_body) initial_state)) = []"
proof -
  let ?e = "example_env\<lparr>pdf_file := None\<rparr>"
  have h1: "pdf_file ?e = None" by simp
  have h2: "pdfText initial_state = None" by (simp add: initial_state_def)
  have h3: "pdfChunks initial_state = []" by (simp add: initial_state_def)
  have h4: "body_message example_body = JString (js ''What is the vacation policy?'')"
    by (simp add: example_body_def)
  have h5: "js ''What is the vacation policy?'' \<noteq> []"
    by (simp add: js_def)
  have h6: "useRAG_of example_body" by code_simp
  have h7: "mode_of example_body \<noteq> js ''agent''" by code_simp
  have h8: "sessionId_of example_body \<notin> set Object_prototype_properties" by code_simp
  have h9: "chatModel_invoke ?e
      (SystemMessage refusalPrompt # history initial_state (sessionId_of example_body)
         @ [HumanMessage (js ''What is the vacation policy?'')])
      = Inr (js ''I do not know.'')"
    by (simp add: example_env_def)
  note all = missing_pdf_degrades [OF h1 h2 h3 h4 h5 h6 h7 h8 h9]
  have "loadPDF ?e initial_state = (Inr (js ''PDF not found.''), initial_state)"
    using all by blast
  moreover have "fst (chat ?e (Some example_body) initial_state) = Reply (js ''I do not know.'') []"
    using conjunct1 [OF conjunct2 [OF conjunct2 [OF conjunct2 [OF all]]]] by (simp only: fst_conv)
  moreover have "pdfChunks (snd (chat ?e (Some example_body) initial_state)) = []"
    using all by blast
  ultimately show ?thesis by blast
qed

subsection \<open>C10: a token of punctuation only\<close>

text \<open>
  The claim as stated gives every chunk the score of its length plus one. The
  pattern is matched against \<^verbatim>\<open>chunk.toLowerCase()\<close>, so the score is the length of
  the lower-cased chunk plus one: the chunk of the one code unit U+0130 has length 1
  and the score 3.
\<close>

theorem dotted_I_chunk_score:
  "scoredChunks example_engine (queryTerms example_engine (js ''....'')) [[0x130]]
     = Inr [([0x130], 3)]
   \<and> length [0x130::nat] + 1 = 2"
  by code_simp

text \<open>
  Claim C10, as amended. The query \<^verbatim>\<open>....\<close> has one token of four characters;
  stripping the punctuation leaves the empty term. The empty pattern matches at
  every index of the lower-cased chunk, so every chunk gets a positive score, the
  length of its lower case plus one, and the chunks returned are as many as there
  are, up to three. The score is the length of the chunk plus one where
  lower-casing keeps the length: for the code units of the tables, whenever the
  chunk does not hold U+0130.
\<close>

theorem punctuation_token_matches_everywhere:
  "queryTerms eng (js ''....'') = [[]]
   \<and> scoredChunks eng (queryTerms eng (js ''....'')) chunks
       = Inr (map (\<lambda>c. (c, length (toLowerCase eng c) + 1)) chunks)
   \<and> (\<forall>c\<in>set chunks. list_all tabulated c \<and> 0x130 \<notin> set c \<longrightarrow>
          length (toLowerCase eng c) + 1 = length c + 1)
   \<and> (\<exists>sources. retrieveRelevantContent eng chunks (js ''....'') = Inr sources
          \<and> length sources = min 3 (length chunks)
          \<and> set sources \<subseteq> set chunks)"
proof -
  have scores: "\<forall>c\<in>set chunks. chunk_score eng (toLowerCase eng c) (queryTerms eng (js ''....'')) 0
      = Inr (length (toLowerCase eng c) + 1)"
    by (simp only: queryTerms_dots chunk_score_empty) simp
  have scored: "scoredChunks eng (queryTerms eng (js ''....'')) chunks
      = Inr (map (\<lambda>c. (c, length (toLowerCase eng c) + 1)) chunks)"
    by (rule scoredChunks_scores [OF scores])
  have plain: "\<forall>c\<in>set chunks. list_all tabulated c \<and> 0x130 \<notin> set c \<longrightarrow>
      length (toLowerCase eng c) + 1 = length c + 1"
    by (simp add: length_toLowerCase)
  define sources where
    "sources = take 3 (sort_key (\<lambda>c. - int (length (toLowerCase eng c) + 1))
                         (filter (\<lambda>c. 0 < length (toLowerCase eng c) + 1) chunks))"
  have "retrieveRelevantContent eng chunks (js ''....'') = Inr sources"
    unfolding sources_def by (rule retrieveRelevantContent_sorted [OF scores])
  moreover have "length sources = min 3 (length chunks)"
    by (simp add: sources_def)
  moreover have "set sources \<subseteq> set chunks"
    using set_take_subset [of 3 "sort_key (\<lambda>c. - int (length (toLowerCase eng c) + 1)) chunks"]
    by (simp add: sources_def)
  ultimately show ?thesis
    using scored plain queryTerms_dots by blast
qed

theorem punctuation_token_matches_everywhere_witness:
  "scoredChunks example_engine (queryTerms example_engine (js ''....''))
       (map js [''a'', ''bcd'', ''ef'', ''g''])
     = Inr [(js ''a'', 2), (js ''bcd'', 4), (js ''ef'', 3), (js ''g'', 2)]
   \<and> retrieveRelevantContent example_engine (map js [''a'', ''bcd'', ''ef'', ''g'']) (js ''....'')
     = Inr [js ''bcd'', js ''ef'', js ''a'']"
proof -
  have "scoredChunks example_engine (queryTerms example_engine (js ''....''))
        (map js [''a'', ''bcd'', ''ef'', ''g''])
      = Inr (map (\<lambda>c. (c, length (toLowerCase example_engine c) + 1))
               (map js [''a'', ''bcd'', ''ef'', ''g'']))"
    using punctuation_token_matches_everywhere
      [of example_engine "map js [''a'', ''bcd'', ''ef'', ''g'']"]
    by blast
  also have "\<dots> = Inr [(js ''a'', 2), (js ''bcd'', 4), (js ''ef'', 3), (js ''g'', 2)]"
    by code_simp
  finally have scored: "scoredChunks example_engine (queryTerms example_engine (js ''....''))
      (map js [''a'', ''bcd'', ''ef'', ''g''])
      = Inr [(js ''a'', 2), (js ''bcd'', 4), (js ''ef'', 3), (js ''g'', 2)]" .
  have "retrieveRelevantContent example_engine (map js [''a'', ''bcd'', ''ef'', ''g'']) (js ''....'')
      = Inr [js ''bcd'', js ''ef'', js ''a'']"
    by code_simp
  with scored show ?thesis by blast
qed

end
